theory Spec2Isabelle
  imports Main "HOL-Library.Char_ord" "HOL-Library.List_Lexorder"
begin

section \<open>The Dockerized Flask responder (day-04-dockerfile-basics/Project-2/app.py)\<close>

text \<open>
  The program registers two view functions on a Flask application and starts the
  development server:
  \<^verbatim>\<open>
  @app.route('/')
  def home():
      return jsonify({
          'message': 'Hello from Dockerized Flask!',
          'container': socket.gethostname(),
          'timestamp': datetime.datetime.now().isoformat()
      })

  @app.route('/health')
  def health():
      return jsonify({'status': 'healthy'})

  if __name__ == '__main__':
      app.run(host='0.0.0.0', port=5000, debug=True)
  \<close>
  The view functions are embedded as state-passing functions on the part of the host
  they read (host name and local clock). The library calls they make
  (\<^verbatim>\<open>socket.gethostname\<close>, \<^verbatim>\<open>datetime.now\<close>, \<^verbatim>\<open>datetime.isoformat\<close>, \<^verbatim>\<open>jsonify\<close>)
  are embedded after the behaviour the Python library documents for them.
\<close>

subsection \<open>Decimal formatting: \<^verbatim>\<open>str(n)\<close> and \<^verbatim>\<open>'%0kd' % n\<close>\<close>

definition digit_char :: "nat \<Rightarrow> char" where
  "digit_char n = char_of (48 + n)"

fun str_nat :: "nat \<Rightarrow> string" where
  "str_nat n = (if n < 10 then [digit_char n] else str_nat (n div 10) @ [digit_char (n mod 10)])"

declare str_nat.simps [simp del]

text \<open>\<^verbatim>\<open>'%0kd' % n\<close> for \<open>n \<ge> 0\<close>: at least \<open>k\<close> characters, padded with zeros on the left.\<close>

definition zfill :: "nat \<Rightarrow> nat \<Rightarrow> string" where
  "zfill k n = replicate (k - length (str_nat n)) (CHR ''0'') @ str_nat n"

subsection \<open>\<^verbatim>\<open>datetime.datetime\<close>\<close>

text \<open>
  A \<^verbatim>\<open>datetime\<close> object: the calendar and clock fields, and \<^verbatim>\<open>tzinfo\<close>, here the UTC
  offset in microseconds (the resolution of \<^verbatim>\<open>timedelta\<close>) of an aware object and
  \<open>None\<close> for a naive one.
\<close>

record datetime =
  year :: nat
  month :: nat
  day :: nat
  hour :: nat
  minute :: nat
  second :: nat
  microsecond :: nat
  tzinfo :: "int option"

definition is_leap :: "nat \<Rightarrow> bool" where
  "is_leap y \<longleftrightarrow> y mod 4 = 0 \<and> (y mod 100 \<noteq> 0 \<or> y mod 400 = 0)"

definition days_in_month :: "nat \<Rightarrow> nat \<Rightarrow> nat" where
  "days_in_month y m =
     (if m = 2 \<and> is_leap y then 29
      else [0, 31, 28, 31, 30, 31, 30, 31, 31, 30, 31, 30, 31] ! m)"

text \<open>
  The table is indexed by the month; \<open>days_in_month\<close> is only asked about a month the
  constructor has already found to be within 1 to 12.
\<close>

text \<open>
  The class invariant: what the constructor checks (\<^verbatim>\<open>MINYEAR = 1\<close>, \<^verbatim>\<open>MAXYEAR = 9999\<close>,
  and an offset strictly within one day).
\<close>

definition valid_datetime :: "datetime \<Rightarrow> bool" where
  "valid_datetime d \<longleftrightarrow>
     1 \<le> year d \<and> year d \<le> 9999 \<and>
     1 \<le> month d \<and> month d \<le> 12 \<and>
     1 \<le> day d \<and> day d \<le> days_in_month (year d) (month d) \<and>
     hour d < 24 \<and> minute d < 60 \<and> second d < 60 \<and> microsecond d < 1000000 \<and>
     (case tzinfo d of None \<Rightarrow> True | Some off \<Rightarrow> \<bar>off\<bar> < 86400000000)"

text \<open>
  \<^verbatim>\<open>isoformat()\<close> with the default separator \<^verbatim>\<open>'T'\<close> and \<^verbatim>\<open>timespec='auto'\<close>:
  the fraction is left out when the microsecond field is \<open>0\<close>, and the offset is
  appended for an aware object only.
\<close>

definition format_time :: "nat \<Rightarrow> nat \<Rightarrow> nat \<Rightarrow> nat \<Rightarrow> string" where
  "format_time hh mm ss us =
     zfill 2 hh @ '':'' @ zfill 2 mm @ '':'' @ zfill 2 ss @
     (if us \<noteq> 0 then ''.'' @ zfill 6 us else [])"

definition format_offset :: "int option \<Rightarrow> string" where
  "format_offset off =
     (case off of
        None \<Rightarrow> []
      | Some o1 \<Rightarrow>
          (let sign = (if o1 < 0 then ''-'' else ''+'');
               a = \<bar>o1\<bar>;
               hh = a div 3600000000;
               r = a mod 3600000000;
               mm = r div 60000000;
               ss = r mod 60000000
           in sign @ zfill 2 (nat hh) @ '':'' @ zfill 2 (nat mm) @
              (if ss \<noteq> 0
               then '':'' @ zfill 2 (nat (ss div 1000000)) @
                    (if ss mod 1000000 \<noteq> 0
                     then ''.'' @ zfill 6 (nat (ss mod 1000000)) else [])
               else [])))"

definition isoformat :: "datetime \<Rightarrow> string" where
  "isoformat d =
     zfill 4 (year d) @ ''-'' @ zfill 2 (month d) @ ''-'' @ zfill 2 (day d) @ ''T'' @
     format_time (hour d) (minute d) (second d) (microsecond d) @
     format_offset (tzinfo d)"

subsection \<open>Reading an ISO 8601 date and time\<close>

text \<open>
  A recogniser for the ISO 8601 extended format, complete representation:
  \<^verbatim>\<open>YYYY-MM-DDThh:mm:ss\<close>, optionally followed by a decimal fraction of six digits,
  optionally followed by a zone designator (\<^verbatim>\<open>Z\<close> or \<^verbatim>\<open>+hh:mm\<close> / \<^verbatim>\<open>-hh:mm\<close>).
  It accepts only strings whose fields denote an existing calendar date and time of
  day. This is the reading of "parses as a valid ISO-8601 instant"; it is not part of
  the program.
\<close>

definition is_digit :: "char \<Rightarrow> bool" where
  "is_digit c \<longleftrightarrow> CHR ''0'' \<le> c \<and> c \<le> CHR ''9''"

definition digit_val :: "char \<Rightarrow> nat" where
  "digit_val c = of_char c - 48"

definition number :: "string \<Rightarrow> nat" where
  "number s = foldl (\<lambda>a c. 10 * a + digit_val c) 0 s"

definition take_number :: "nat \<Rightarrow> string \<Rightarrow> (nat \<times> string) option" where
  "take_number k s =
     (if k \<le> length s \<and> list_all is_digit (take k s)
      then Some (number (take k s), drop k s) else None)"

definition expect :: "char \<Rightarrow> string \<Rightarrow> string option" where
  "expect c s = (case s of [] \<Rightarrow> None | x # xs \<Rightarrow> if x = c then Some xs else None)"

definition parse_fraction :: "string \<Rightarrow> (nat \<times> string) option" where
  "parse_fraction s =
     (case s of
        [] \<Rightarrow> Some (0, [])
      | c # t \<Rightarrow> if c = CHR ''.'' then take_number 6 t else Some (0, s))"

text \<open>The outer \<open>None\<close> is a malformed designator, \<open>Some None\<close> is no designator.\<close>

definition parse_zone :: "string \<Rightarrow> int option option" where
  "parse_zone s =
     (case s of
        [] \<Rightarrow> Some None
      | c # t \<Rightarrow>
          if c = CHR ''Z'' then (if t = [] then Some (Some 0) else None)
          else if c = CHR ''+'' \<or> c = CHR ''-'' then
            Option.bind (take_number 2 t) (\<lambda>(hh, t1).
            Option.bind (expect (CHR '':'') t1) (\<lambda>t2.
            Option.bind (take_number 2 t2) (\<lambda>(mm, t3).
              if t3 = [] \<and> hh < 24 \<and> mm < 60
              then Some (Some ((if c = CHR ''-'' then - 1 else 1) *
                               ((int hh * 3600 + int mm * 60) * 1000000)))
              else None)))
          else None)"

definition parse_iso8601 :: "string \<Rightarrow> datetime option" where
  "parse_iso8601 s =
     Option.bind (take_number 4 s) (\<lambda>(y, s1).
     Option.bind (expect (CHR ''-'') s1) (\<lambda>s2.
     Option.bind (take_number 2 s2) (\<lambda>(m, s3).
     Option.bind (expect (CHR ''-'') s3) (\<lambda>s4.
     Option.bind (take_number 2 s4) (\<lambda>(d, s5).
     Option.bind (expect (CHR ''T'') s5) (\<lambda>s6.
     Option.bind (take_number 2 s6) (\<lambda>(hh, s7).
     Option.bind (expect (CHR '':'') s7) (\<lambda>s8.
     Option.bind (take_number 2 s8) (\<lambda>(mi, s9).
     Option.bind (expect (CHR '':'') s9) (\<lambda>s10.
     Option.bind (take_number 2 s10) (\<lambda>(ss, s11).
     Option.bind (parse_fraction s11) (\<lambda>(us, s12).
     Option.bind (parse_zone s12) (\<lambda>tz.
       (let dt = \<lparr>year = y, month = m, day = d, hour = hh, minute = mi, second = ss,
                  microsecond = us, tzinfo = tz\<rparr>
        in if valid_datetime dt then Some dt else None))))))))))))))"

text \<open>
  Chronological comparison of two naive \<^verbatim>\<open>datetime\<close> objects, as Python compares them:
  the tuples of fields, lexicographically.
\<close>

definition dt_key :: "datetime \<Rightarrow> nat list" where
  "dt_key d = [year d, month d, day d, hour d, minute d, second d, microsecond d]"

subsection \<open>The host: what the view functions read\<close>

text \<open>
  \<open>hostname\<close> is what \<^verbatim>\<open>gethostname(2)\<close> reports. \<open>clock\<close> is the current local date and
  time of the host together with the zone offset in force (\<open>tzinfo\<close>), which fixes the
  absolute instant. Both belong to the host and may change between two requests.
\<close>

record world =
  hostname :: string
  clock :: datetime

definition gethostname :: "world \<Rightarrow> string \<times> world" where
  "gethostname w = (hostname w, w)"

text \<open>\<^verbatim>\<open>datetime.now()\<close> with \<^verbatim>\<open>tz=None\<close>: the local date and time as a naive object.\<close>

definition datetime_now :: "world \<Rightarrow> datetime \<times> world" where
  "datetime_now w = ((clock w)\<lparr>tzinfo := None\<rparr>, w)"

subsection \<open>Responses\<close>

datatype json = JString string | JObject "(string \<times> json) list"

datatype payload = Json json | Html string

record response =
  status :: nat
  mimetype :: string
  body :: payload

text \<open>\<^verbatim>\<open>jsonify(obj)\<close>: a response with the default status and the JSON mimetype.\<close>

definition jsonify :: "json \<Rightarrow> response" where
  "jsonify obj = \<lparr>status = 200, mimetype = ''application/json'', body = Json obj\<rparr>"

definition json_keys :: "response \<Rightarrow> string list" where
  "json_keys r = (case body r of Json (JObject kvs) \<Rightarrow> map fst kvs | _ \<Rightarrow> [])"

definition json_field :: "string \<Rightarrow> response \<Rightarrow> string option" where
  "json_field k r =
     (case body r of
        Json (JObject kvs) \<Rightarrow>
          (case map_of kvs k of Some (JString v) \<Rightarrow> Some v | _ \<Rightarrow> None)
      | _ \<Rightarrow> None)"

subsection \<open>The view functions\<close>

text \<open>The dictionary literal evaluates its values in order: host name first, then clock.\<close>

definition home :: "world \<Rightarrow> response \<times> world" where
  "home w0 =
     (let (h, w1) = gethostname w0;
          (t, w2) = datetime_now w1
      in (jsonify (JObject [(''message'', JString ''Hello from Dockerized Flask!''),
                            (''container'', JString h),
                            (''timestamp'', JString (isoformat t))]), w2))"

definition health :: "world \<Rightarrow> response \<times> world" where
  "health w = (jsonify (JObject [(''status'', JString ''healthy'')]), w)"

subsection \<open>Routing\<close>

text \<open>
  The two \<^verbatim>\<open>@app.route\<close> decorators register the rules \<^verbatim>\<open>'/'\<close> and \<^verbatim>\<open>'/health'\<close>.

  A request carries its path and the content the view functions could read but do not.
  The HTTP method is not part of it: the router's method filter (\<^verbatim>\<open>GET\<close> by the
  framework's default) runs before dispatch, and a request here is one that passed it.
\<close>

datatype endpoint = Home | Health

definition url_map :: "(string \<times> endpoint) list" where
  "url_map = [(''/'', Home), (''/health'', Health)]"

fun view_function :: "endpoint \<Rightarrow> world \<Rightarrow> response \<times> world" where
  "view_function Home = home"
| "view_function Health = health"

record request =
  path :: string
  query_string :: string
  headers :: "(string \<times> string) list"
  data :: string

text \<open>
  Modelled from the spec: Flask's router and its default error page are not part of the
  repository. Section 4.1 has the responder "dispatch incoming requests to one of two
  handlers by exact path match", section 8 has "requests to any undefined path ->
  404 per host framework default". Only the status of the error page is claimed; its
  text stands for the framework's page.
\<close>

definition match_request :: "request \<Rightarrow> endpoint option" where
  "match_request r = map_of url_map (path r)"

definition not_found :: response where
  "not_found = \<lparr>status = 404, mimetype = ''text/html'', body = Html ''Not Found''\<rparr>"

definition dispatch_request :: "world \<Rightarrow> request \<Rightarrow> response \<times> world" where
  "dispatch_request w r =
     (case match_request r of
        None \<Rightarrow> (not_found, w)
      | Some e \<Rightarrow> view_function e w)"

subsection \<open>Start-up and the life of the process\<close>




text \<open>
  Modelled from the spec: \<^verbatim>\<open>app.run\<close> is Flask's. Section 4.1: "Bind to all network
  interfaces on a fixed port (5000); begin accepting connections; run until externally
  terminated (e.g., process signal)". The life of the process is the list of events
  that reach it: a request, a change the host makes to its clock or to its name, or
  the terminating signal. The list is a finite observation of the life; the loop
  answers each request in turn and stops at the signal.
\<close>

datatype event =
    Incoming request
  | ClockChange datetime
  | HostnameChange string
  | Shutdown

fun serve :: "world \<Rightarrow> event list \<Rightarrow> response list \<times> world" where
  "serve w [] = ([], w)"
| "serve w (Incoming r # es) =
     (let (resp, w1) = dispatch_request w r;
          (rs, w2) = serve w1 es
      in (resp # rs, w2))"
| "serve w (ClockChange c # es) = serve (w\<lparr>clock := c\<rparr>) es"
| "serve w (HostnameChange h # es) = serve (w\<lparr>hostname := h\<rparr>) es"
| "serve w (Shutdown # es) = ([], w)"




subsection \<open>Observations on a life of the process\<close>

text \<open>The values of one key in the JSON responses of a run, in the order of the requests.\<close>

definition field_values :: "string \<Rightarrow> response list \<Rightarrow> string list" where
  "field_values k rs = List.map_filter (json_field k) rs"


text \<open>
  The host never sets its local clock to an earlier reading (and only to readings that
  are dates): no step back at the end of daylight saving time, no correction backwards.
\<close>

fun clock_steady :: "world \<Rightarrow> event list \<Rightarrow> bool" where
  "clock_steady w [] = True"
| "clock_steady w (Incoming r # es) = clock_steady w es"
| "clock_steady w (ClockChange c # es) =
     (valid_datetime c \<and> dt_key (clock w) \<le> dt_key c \<and> clock_steady (w\<lparr>clock := c\<rparr>) es)"
| "clock_steady w (HostnameChange h # es) = clock_steady (w\<lparr>hostname := h\<rparr>) es"
| "clock_steady w (Shutdown # es) = True"

text \<open>The host keeps its name throughout.\<close>

fun hostname_stable :: "event list \<Rightarrow> bool" where
  "hostname_stable [] = True"
| "hostname_stable (HostnameChange h # es) = False"
| "hostname_stable (e # es) = hostname_stable es"

text \<open>What the host does on its own: the life without the requests.\<close>

fun is_incoming :: "event \<Rightarrow> bool" where
  "is_incoming (Incoming r) = True"
| "is_incoming e = False"


subsection \<open>Example hosts and requests\<close>

text \<open>
  A host in a zone that leaves daylight saving time on 3 November 2024: at 02:00 local
  time (offset -4 h) the local clock is set back to 01:00 (offset -5 h).
\<close>

definition clock_before :: datetime where
  "clock_before = \<lparr>year = 2024, month = 11, day = 3, hour = 1, minute = 59, second = 59,
                    microsecond = 500000, tzinfo = Some (- 14400000000)\<rparr>"

definition clock_after :: datetime where
  "clock_after = \<lparr>year = 2024, month = 11, day = 3, hour = 1, minute = 0, second = 0,
                   microsecond = 250000, tzinfo = Some (- 18000000000)\<rparr>"

definition clock_next_day :: datetime where
  "clock_next_day = \<lparr>year = 2024, month = 11, day = 4, hour = 0, minute = 0, second = 0,
                      microsecond = 0, tzinfo = Some (- 18000000000)\<rparr>"

definition host0 :: world where
  "host0 = \<lparr>hostname = ''3f2a9c41d7b0'', clock = clock_before\<rparr>"

definition unnamed_host :: world where
  "unnamed_host = \<lparr>hostname = [], clock = clock_before\<rparr>"

definition get :: "string \<Rightarrow> request" where
  "get p = \<lparr>path = p, query_string = [], headers = [], data = []\<rparr>"

definition get_with_content :: "string \<Rightarrow> request" where
  "get_with_content p = \<lparr>path = p, query_string = ''verbose=1'',
     headers = [(''Accept'', ''text/plain''), (''X-Forwarded-For'', ''10.0.0.7'')],
     data = ''ignored''\<rparr>"



section \<open>Lemmas on the library functions\<close>

lemma digit_char_numerals:
  "digit_char 0 = CHR ''0''" "digit_char 1 = CHR ''1''" "digit_char 2 = CHR ''2''"
  "digit_char 3 = CHR ''3''" "digit_char 4 = CHR ''4''" "digit_char 5 = CHR ''5''"
  "digit_char 6 = CHR ''6''" "digit_char 7 = CHR ''7''" "digit_char 8 = CHR ''8''"
  "digit_char 9 = CHR ''9''" "digit_char (Suc 0) = CHR ''1''"
  by (simp_all add: digit_char_def char_of_def bit_0)

lemma of_char_digit_char: "n < 10 \<Longrightarrow> of_char (digit_char n) = 48 + n"
  by (simp add: digit_char_def)

lemma digit_char_less: "n < 10 \<Longrightarrow> m < 10 \<Longrightarrow> digit_char n < digit_char m \<longleftrightarrow> n < m"
  by (simp add: less_char_def of_char_digit_char)

lemma is_digit_digit_char: "n < 10 \<Longrightarrow> is_digit (digit_char n)"
  by (simp add: is_digit_def less_eq_char_def of_char_digit_char)

lemma digit_val_digit_char: "n < 10 \<Longrightarrow> digit_val (digit_char n) = n"
  by (simp add: digit_val_def of_char_digit_char)


lemma str_nat_digits: "list_all is_digit (str_nat n)"
proof (induction n rule: str_nat.induct)
  case (1 n)
  show ?case
  proof (cases "n < 10")
    case True
    then show ?thesis by (subst str_nat.simps) (simp add: is_digit_digit_char)
  next
    case False
    with "1" show ?thesis by (subst str_nat.simps) (simp add: is_digit_digit_char)
  qed
qed

lemma number_snoc: "number (s @ [c]) = 10 * number s + digit_val c"
  by (simp add: number_def)

lemma number_str_nat: "number (str_nat n) = n"
proof (induction n rule: str_nat.induct)
  case (1 n)
  show ?case
  proof (cases "n < 10")
    case True
    then show ?thesis by (subst str_nat.simps) (simp add: number_def digit_val_digit_char)
  next
    case False
    with "1" show ?thesis
      by (subst str_nat.simps) (simp add: number_snoc digit_val_digit_char)
  qed
qed


lemma length_str_nat_le: "0 < k \<Longrightarrow> n < 10 ^ k \<Longrightarrow> length (str_nat n) \<le> k"
proof (induction n arbitrary: k rule: str_nat.induct)
  case (1 n)
  show ?case
  proof (cases "n < 10")
    case True
    with "1.prems" show ?thesis by (subst str_nat.simps) simp
  next
    case False
    from "1.prems"(1) obtain j where k: "k = Suc j" by (cases k) simp_all
    have j: "0 < j"
    proof (rule ccontr)
      assume "\<not> 0 < j"
      with k "1.prems"(2) have "n < 10" by simp
      with False show False by simp
    qed
    from "1.prems" k have "n div 10 < 10 ^ j"
      by (simp add: less_mult_imp_div_less mult.commute)
    with "1.IH" [OF False j] have "length (str_nat (n div 10)) \<le> j" .
    with False k show ?thesis by (subst str_nat.simps) simp
  qed
qed

lemma number_zeros: "number (replicate j (CHR ''0'') @ s) = number s"
proof -
  have "foldl (\<lambda>a c. 10 * a + digit_val c) 0 (replicate j (CHR ''0'')) = 0"
    by (induction j) (simp_all add: digit_val_def)
  then show ?thesis by (simp add: number_def)
qed

lemma number_zfill: "number (zfill k n) = n"
  by (simp add: zfill_def number_zeros number_str_nat)

lemma zeros_digits: "list_all is_digit (replicate j (CHR ''0''))"
  by (induction j) (simp_all add: is_digit_def)

lemma zfill_digits: "list_all is_digit (zfill k n)"
  by (simp add: zfill_def str_nat_digits zeros_digits)

lemma length_zfill: "0 < k \<Longrightarrow> n < 10 ^ k \<Longrightarrow> length (zfill k n) = k"
  using length_str_nat_le [of k n] by (simp add: zfill_def)


lemma take_number_zfill:
  "0 < k \<Longrightarrow> n < 10 ^ k \<Longrightarrow> take_number k (zfill k n @ rest) = Some (n, rest)"
  by (simp add: take_number_def length_zfill zfill_digits number_zfill)

lemma zfill_Suc:
  assumes "0 < k" "n < 10 ^ Suc k"
  shows "zfill (Suc k) n = zfill k (n div 10) @ [digit_char (n mod 10)]"
proof (cases "n < 10")
  case True
  have "str_nat n = [digit_char n]" "str_nat 0 = [CHR ''0'']"
    using True by (simp_all add: str_nat.simps [of n] str_nat.simps [of 0] digit_char_numerals)
  with True assms(1) show ?thesis
    by (cases k) (simp_all add: zfill_def replicate_append_same)
next
  case False
  from assms have "n div 10 < 10 ^ k"
    by (simp add: less_mult_imp_div_less mult.commute)
  with assms(1) have "length (str_nat (n div 10)) \<le> k" by (rule length_str_nat_le)
  moreover have "str_nat n = str_nat (n div 10) @ [digit_char (n mod 10)]"
    using False by (subst str_nat.simps) simp
  ultimately show ?thesis by (simp add: zfill_def Suc_diff_le)
qed

lemma zfill_1: "n < 10 \<Longrightarrow> zfill (Suc 0) n = [digit_char n]"
  by (simp add: zfill_def str_nat.simps [of n])

lemma append_less_same_length:
  "length xs = length ys \<Longrightarrow> xs @ us < ys @ vs \<longleftrightarrow> xs < ys \<or> xs = ys \<and> us < (vs :: 'a :: linorder list)"
  by (induction xs ys rule: list_induct2) auto

lemma base10_less:
  fixes a b c d :: nat
  assumes "b < 10" "d < 10"
  shows "10 * a + b < 10 * c + d \<longleftrightarrow> a < c \<or> a = c \<and> b < d"
  using assms by linarith

lemma div_mod_10_less: "(n::nat) < m \<longleftrightarrow> n div 10 < m div 10 \<or> n div 10 = m div 10 \<and> n mod 10 < m mod 10"
proof -
  have "n < m \<longleftrightarrow> 10 * (n div 10) + n mod 10 < 10 * (m div 10) + m mod 10"
    by simp
  also have "\<dots> \<longleftrightarrow> n div 10 < m div 10 \<or> n div 10 = m div 10 \<and> n mod 10 < m mod 10"
    by (rule base10_less) simp_all
  finally show ?thesis .
qed

lemma zfill_eq: "zfill k n = zfill k m \<longleftrightarrow> n = m"
  by (metis number_zfill)

lemma zfill_less: "0 < k \<Longrightarrow> n < 10 ^ k \<Longrightarrow> m < 10 ^ k \<Longrightarrow> zfill k n < zfill k m \<longleftrightarrow> n < m"
proof (induction k arbitrary: n m)
  case 0
  then show ?case by simp
next
  case (Suc k)
  show ?case
  proof (cases "k = 0")
    case True
    with Suc.prems show ?thesis by (simp add: zfill_1 digit_char_less)
  next
    case False
    then have k: "0 < k" by simp
    from Suc.prems have b: "n div 10 < 10 ^ k" "m div 10 < 10 ^ k"
      by (simp_all add: less_mult_imp_div_less mult.commute)
    have len: "length (zfill k (n div 10)) = length (zfill k (m div 10))"
      using k b by (simp add: length_zfill)
    have ih: "zfill k (n div 10) < zfill k (m div 10) \<longleftrightarrow> n div 10 < m div 10"
      using k b by (rule Suc.IH)
    have n: "zfill (Suc k) n = zfill k (n div 10) @ [digit_char (n mod 10)]"
      using k Suc.prems(2) by (rule zfill_Suc)
    have m: "zfill (Suc k) m = zfill k (m div 10) @ [digit_char (m mod 10)]"
      using k Suc.prems(3) by (rule zfill_Suc)
    have d: "digit_char (n mod 10) < digit_char (m mod 10) \<longleftrightarrow> n mod 10 < m mod 10"
      by (rule digit_char_less) simp_all
    have "zfill (Suc k) n < zfill (Suc k) m \<longleftrightarrow>
          n div 10 < m div 10 \<or> n div 10 = m div 10 \<and> n mod 10 < m mod 10"
      unfolding n m append_less_same_length [OF len] ih zfill_eq by (simp add: d)
    then show ?thesis by (simp only: div_mod_10_less [of n m])
  qed
qed

lemma take_number_zfill_num:
  "n < 10000 \<Longrightarrow> take_number 4 (zfill 4 n @ rest) = Some (n, rest)"
  "n < 100 \<Longrightarrow> take_number 2 (zfill 2 n @ rest) = Some (n, rest)"
  "n < 1000000 \<Longrightarrow> take_number 6 (zfill 6 n @ rest) = Some (n, rest)"
  using take_number_zfill [of 4 n rest] take_number_zfill [of 2 n rest]
    take_number_zfill [of 6 n rest] by simp_all

lemma length_zfill_num:
  "n < 10000 \<Longrightarrow> length (zfill 4 n) = 4"
  "n < 100 \<Longrightarrow> length (zfill 2 n) = 2"
  "n < 1000000 \<Longrightarrow> length (zfill 6 n) = 6"
  using length_zfill [of 4 n] length_zfill [of 2 n] length_zfill [of 6 n] by simp_all

lemma zfill_less_num:
  "n < 10000 \<Longrightarrow> m < 10000 \<Longrightarrow> zfill 4 n < zfill 4 m \<longleftrightarrow> n < m"
  "n < 100 \<Longrightarrow> m < 100 \<Longrightarrow> zfill 2 n < zfill 2 m \<longleftrightarrow> n < m"
  "n < 1000000 \<Longrightarrow> m < 1000000 \<Longrightarrow> zfill 6 n < zfill 6 m \<longleftrightarrow> n < m"
  using zfill_less [of 4 n m] zfill_less [of 2 n m] zfill_less [of 6 n m] by simp_all

lemma expect_Cons: "expect c (c # s) = Some s"
  by (simp add: expect_def)

lemma days_in_month_le: "m \<le> 12 \<Longrightarrow> days_in_month y m \<le> 31"
proof -
  let ?T = "[0, 31, 28, 31, 30, 31, 30, 31, 31, 30, 31, 30, 31::nat]"
  assume m: "m \<le> 12"
  have "list_all (\<lambda>x. x \<le> 31) ?T" by simp
  then have "\<forall>n<length ?T. ?T ! n \<le> 31" by (simp only: list_all_length)
  with m have "?T ! m \<le> 31" by simp
  then show ?thesis by (simp add: days_in_month_def)
qed

lemma valid_datetime_bounds:
  assumes "valid_datetime d"
  shows "year d < 10000" "month d < 100" "day d < 100" "hour d < 100" "minute d < 100"
    "second d < 100" "microsecond d < 1000000"
proof -
  from assms have m: "1 \<le> month d" "month d \<le> 12" by (simp_all add: valid_datetime_def)
  from assms have "day d \<le> days_in_month (year d) (month d)" by (simp add: valid_datetime_def)
  with days_in_month_le [OF m(2), of "year d"] show "day d < 100" by simp
qed (use assms in \<open>simp_all add: valid_datetime_def\<close>)

lemma isoformat_naive:
  "tzinfo d = None \<Longrightarrow> isoformat d =
     zfill 4 (year d) @ CHR ''-'' # zfill 2 (month d) @ CHR ''-'' # zfill 2 (day d) @ CHR ''T'' #
     zfill 2 (hour d) @ CHR '':'' # zfill 2 (minute d) @ CHR '':'' # zfill 2 (second d) @
     (if microsecond d \<noteq> 0 then CHR ''.'' # zfill 6 (microsecond d) else [])"
  by (simp add: isoformat_def format_time_def format_offset_def)

lemma parse_fraction_zfill:
  "us < 1000000 \<Longrightarrow>
   parse_fraction (if us \<noteq> 0 then CHR ''.'' # zfill 6 us else []) = Some (us, [])"
  using take_number_zfill_num(3) [of us "[]"] by (simp add: parse_fraction_def)

lemma parse_isoformat_naive:
  assumes v: "valid_datetime d" and n: "tzinfo d = None"
  shows "parse_iso8601 (isoformat d) = Some d"
proof -
  note b = valid_datetime_bounds [OF v]
  let ?f = "if microsecond d \<noteq> 0 then CHR ''.'' # zfill 6 (microsecond d) else []"
  have f: "parse_fraction ?f = Some (microsecond d, [])"
    using b(7) by (rule parse_fraction_zfill)
  have d: "\<lparr>year = year d, month = month d, day = day d, hour = hour d, minute = minute d,
             second = second d, microsecond = microsecond d, tzinfo = None\<rparr> = d"
    using n by simp
  have "parse_iso8601 (isoformat d) =
        Option.bind (parse_fraction ?f) (\<lambda>(us, s12).
        Option.bind (parse_zone s12) (\<lambda>tz.
          (let dt = \<lparr>year = year d, month = month d, day = day d, hour = hour d,
                     minute = minute d, second = second d, microsecond = us, tzinfo = tz\<rparr>
           in if valid_datetime dt then Some dt else None)))"
    unfolding isoformat_naive [OF n] parse_iso8601_def
    by (simp only: take_number_zfill_num b expect_Cons append_Cons append_Nil
        Option.bind.simps prod.case)
  also have "\<dots> = Some d"
    unfolding f by (simp add: parse_zone_def d v)
  finally show ?thesis .
qed

lemma field_less:
  "length a = length b \<Longrightarrow>
   a @ c # u < b @ c # v \<longleftrightarrow> a < b \<or> a = b \<and> u < (v :: 'a :: linorder list)"
  by (simp add: append_less_same_length)

lemma fraction_less:
  assumes "us1 < 1000000" "us2 < 1000000"
  shows "(if us1 \<noteq> 0 then CHR ''.'' # zfill 6 us1 else []) <
         (if us2 \<noteq> 0 then CHR ''.'' # zfill 6 us2 else []) \<longleftrightarrow> us1 < us2"
  using assms by (simp add: zfill_less_num)

lemma isoformat_less_iff:
  assumes v1: "valid_datetime d1" and n1: "tzinfo d1 = None"
    and v2: "valid_datetime d2" and n2: "tzinfo d2 = None"
  shows "isoformat d1 < isoformat d2 \<longleftrightarrow> dt_key d1 < dt_key d2"
proof -
  note b1 = valid_datetime_bounds [OF v1] and b2 = valid_datetime_bounds [OF v2]
  have l4: "length (zfill 4 (year d1)) = length (zfill 4 (year d2))"
    by (simp add: length_zfill_num b1 b2)
  have l2: "length (zfill 2 (month d1)) = length (zfill 2 (month d2))"
    "length (zfill 2 (day d1)) = length (zfill 2 (day d2))"
    "length (zfill 2 (hour d1)) = length (zfill 2 (hour d2))"
    "length (zfill 2 (minute d1)) = length (zfill 2 (minute d2))"
    "length (zfill 2 (second d1)) = length (zfill 2 (second d2))"
    by (simp_all add: length_zfill_num b1 b2)
  show ?thesis
    unfolding isoformat_naive [OF n1] isoformat_naive [OF n2] dt_key_def
      field_less [OF l4] field_less [OF l2(1)] field_less [OF l2(2)] field_less [OF l2(3)]
      field_less [OF l2(4)] append_less_same_length [OF l2(5)]
      fraction_less [OF b1(7) b2(7)] zfill_eq
    by (simp add: zfill_less_num b1 b2)
qed

lemma isoformat_inj:
  assumes v1: "valid_datetime d1" and n1: "tzinfo d1 = None"
    and v2: "valid_datetime d2" and n2: "tzinfo d2 = None"
  shows "isoformat d1 = isoformat d2 \<longleftrightarrow> d1 = d2"
  by (metis parse_isoformat_naive v1 n1 v2 n2 option.inject)

lemma dt_key_inj: "tzinfo d1 = tzinfo d2 \<Longrightarrow> dt_key d1 = dt_key d2 \<longleftrightarrow> d1 = (d2 :: datetime)"
  by (auto simp: dt_key_def)

lemma isoformat_le_iff:
  assumes v1: "valid_datetime d1" and n1: "tzinfo d1 = None"
    and v2: "valid_datetime d2" and n2: "tzinfo d2 = None"
  shows "isoformat d1 \<le> isoformat d2 \<longleftrightarrow> dt_key d1 \<le> dt_key d2"
  using isoformat_less_iff [OF assms] isoformat_inj [OF assms] dt_key_inj [of d1 d2] n1 n2
  by (simp add: le_less)

section \<open>Lemmas on the view functions and the router\<close>

lemma home_eq:
  "home w =
     (jsonify (JObject [(''message'', JString ''Hello from Dockerized Flask!''),
                        (''container'', JString (hostname w)),
                        (''timestamp'', JString (isoformat ((clock w)\<lparr>tzinfo := None\<rparr>)))]), w)"
  by (simp add: home_def gethostname_def datetime_now_def)

lemma dispatch_root: "path r = ''/'' \<Longrightarrow> dispatch_request w r = home w"
  by (simp add: dispatch_request_def match_request_def url_map_def)

lemma dispatch_health: "path r = ''/health'' \<Longrightarrow> dispatch_request w r = health w"
  by (simp add: dispatch_request_def match_request_def url_map_def)

lemma dispatch_other:
  "path r \<noteq> ''/'' \<Longrightarrow> path r \<noteq> ''/health'' \<Longrightarrow> dispatch_request w r = (not_found, w)"
  by (simp add: dispatch_request_def match_request_def url_map_def)

lemma dispatch_cases:
  obtains (root) "path r = ''/''" "dispatch_request w r = home w"
  | (health) "path r = ''/health''" "dispatch_request w r = health w"
  | (other) "path r \<noteq> ''/''" "path r \<noteq> ''/health''" "dispatch_request w r = (not_found, w)"
  using dispatch_root dispatch_health dispatch_other by blast

lemma dispatch_frame: "snd (dispatch_request w r) = w"
  by (cases r w rule: dispatch_cases) (simp_all add: home_eq health_def)

lemma json_field_home:
  "json_field ''message'' (fst (home w)) = Some ''Hello from Dockerized Flask!''"
  "json_field ''container'' (fst (home w)) = Some (hostname w)"
  "json_field ''timestamp'' (fst (home w)) = Some (isoformat ((clock w)\<lparr>tzinfo := None\<rparr>))"
  by (simp_all add: home_eq jsonify_def json_field_def)

lemma json_field_health:
  "json_field k (fst (health w)) = (if k = ''status'' then Some ''healthy'' else None)"
  by (simp add: health_def jsonify_def json_field_def)

lemma json_field_not_found: "json_field k not_found = None"
  by (simp add: not_found_def json_field_def)

lemma valid_naive: "valid_datetime c \<Longrightarrow> valid_datetime (c\<lparr>tzinfo := None\<rparr>)"
  by (simp add: valid_datetime_def)

lemma dt_key_naive: "dt_key (c\<lparr>tzinfo := z\<rparr>) = dt_key c"
  by (simp add: dt_key_def)

lemma serve_Incoming:
  "serve w (Incoming r # es) = (fst (dispatch_request w r) # fst (serve w es), snd (serve w es))"
  using dispatch_frame [of w r] by (simp add: split_beta)

lemma field_values_Cons:
  "field_values k (r # rs) =
     (case json_field k r of None \<Rightarrow> field_values k rs | Some v \<Rightarrow> v # field_values k rs)"
  by (simp add: field_values_def List.map_filter_simps split: option.split)

lemma field_values_Nil: "field_values k [] = []"
  by (simp add: field_values_def List.map_filter_simps)

lemma field_values_dispatch:
  "field_values ''timestamp'' (fst (dispatch_request w r) # rs) =
     (if path r = ''/'' then isoformat ((clock w)\<lparr>tzinfo := None\<rparr>) # field_values ''timestamp'' rs
      else field_values ''timestamp'' rs)"
  "field_values ''container'' (fst (dispatch_request w r) # rs) =
     (if path r = ''/'' then hostname w # field_values ''container'' rs
      else field_values ''container'' rs)"
  by (cases r w rule: dispatch_cases;
      simp add: field_values_Cons json_field_home json_field_health json_field_not_found)+

lemma serve_timestamps_lower:
  "valid_datetime (clock w) \<Longrightarrow> clock_steady w es \<Longrightarrow>
   t \<in> set (field_values ''timestamp'' (fst (serve w es))) \<Longrightarrow>
   isoformat ((clock w)\<lparr>tzinfo := None\<rparr>) \<le> t"
proof (induction es arbitrary: w)
  case Nil
  then show ?case by (simp add: field_values_Nil)
next
  case (Cons e es)
  show ?case
  proof (cases e)
    case (Incoming r)
    with Cons show ?thesis
      by (auto simp: serve_Incoming field_values_dispatch simp del: serve.simps(2)
          split: if_splits)
  next
    case (ClockChange c)
    with Cons.prems have c: "valid_datetime c" and le: "dt_key (clock w) \<le> dt_key c"
      and st: "clock_steady (w\<lparr>clock := c\<rparr>) es"
      and t: "t \<in> set (field_values ''timestamp'' (fst (serve (w\<lparr>clock := c\<rparr>) es)))"
      by simp_all
    have "isoformat ((clock w)\<lparr>tzinfo := None\<rparr>) \<le> isoformat (c\<lparr>tzinfo := None\<rparr>)"
      using le Cons.prems(1) c by (simp add: isoformat_le_iff valid_naive dt_key_naive)
    also have "isoformat (c\<lparr>tzinfo := None\<rparr>) \<le> t"
      using Cons.IH [of "w\<lparr>clock := c\<rparr>"] c st t by simp
    finally show ?thesis .
  next
    case (HostnameChange h)
    with Cons.prems Cons.IH [of "w\<lparr>hostname := h\<rparr>"] show ?thesis by simp
  next
    case Shutdown
    with Cons.prems show ?thesis by (simp add: field_values_Nil)
  qed
qed

lemma serve_timestamps_sorted:
  "valid_datetime (clock w) \<Longrightarrow> clock_steady w es \<Longrightarrow>
   sorted (field_values ''timestamp'' (fst (serve w es)))"
proof (induction es arbitrary: w)
  case Nil
  then show ?case by (simp add: field_values_Nil)
next
  case (Cons e es)
  show ?case
  proof (cases e)
    case (Incoming r)
    with Cons show ?thesis
      using serve_timestamps_lower [of w es]
      by (auto simp: serve_Incoming field_values_dispatch simp del: serve.simps(2))
  next
    case (ClockChange c)
    with Cons.prems Cons.IH [of "w\<lparr>clock := c\<rparr>"] show ?thesis by simp
  next
    case (HostnameChange h)
    with Cons.prems Cons.IH [of "w\<lparr>hostname := h\<rparr>"] show ?thesis by simp
  next
    case Shutdown
    then show ?thesis by (simp add: field_values_Nil)
  qed
qed

lemma serve_containers:
  "hostname_stable es \<Longrightarrow> c \<in> set (field_values ''container'' (fst (serve w es))) \<Longrightarrow>
   c = hostname w"
proof (induction es arbitrary: w)
  case Nil
  then show ?case by (simp add: field_values_Nil)
next
  case (Cons e es)
  show ?case
  proof (cases e)
    case (Incoming r)
    with Cons show ?thesis
      by (auto simp: serve_Incoming field_values_dispatch simp del: serve.simps(2)
          split: if_splits)
  next
    case (ClockChange c')
    with Cons.prems Cons.IH [of "w\<lparr>clock := c'\<rparr>"] show ?thesis by simp
  next
    case (HostnameChange h)
    with Cons.prems show ?thesis by simp
  next
    case Shutdown
    with Cons.prems show ?thesis by (simp add: field_values_Nil)
  qed
qed

lemma serve_frame: "snd (serve w (filter (\<lambda>e. \<not> is_incoming e) es)) = snd (serve w es)"
proof (induction es arbitrary: w)
  case (Cons e es)
  then show ?case by (cases e) (simp_all add: serve_Incoming del: serve.simps(2))
qed simp


section \<open>Lemmas on the timestamp string, and the examples evaluated\<close>





lemma isoformat_naive_length:
  assumes v: "valid_datetime d" and n: "tzinfo d = None"
  shows "length (isoformat d) = (if microsecond d = 0 then 19 else 26)"
  by (simp add: isoformat_naive [OF n] length_zfill_num valid_datetime_bounds [OF v])


text \<open>Evaluating the formatting functions on numerals.\<close>

lemmas format_eval = isoformat_def format_time_def format_offset_def zfill_def str_nat.simps digit_char_numerals

lemma isoformat_examples:
  "isoformat (clock_before\<lparr>tzinfo := None\<rparr>) = ''2024-11-03T01:59:59.500000''"
  "isoformat (clock_after\<lparr>tzinfo := None\<rparr>) = ''2024-11-03T01:00:00.250000''"
  "isoformat (clock_next_day\<lparr>tzinfo := None\<rparr>) = ''2024-11-04T00:00:00''"
  by (simp_all add: clock_before_def clock_after_def clock_next_day_def format_eval)

lemma valid_examples:
  "valid_datetime clock_before" "valid_datetime clock_after" "valid_datetime clock_next_day"
  by (simp_all add: clock_before_def clock_after_def clock_next_day_def valid_datetime_def
      days_in_month_def is_leap_def)

section \<open>The claims\<close>

text \<open>
  C1. A request to \<^verbatim>\<open>/\<close> is routed to \<open>home\<close>, which answers with status 200 and a JSON
  object with exactly the keys \<^verbatim>\<open>message\<close>, \<^verbatim>\<open>container\<close>, \<^verbatim>\<open>timestamp\<close>: the message is the
  literal greeting, the container is the host name read at the request, and the
  timestamp reads back, as an ISO 8601 date and time, to the local time read at the
  request. The clock of the host is assumed to show a date (the invariant of every
  \<^verbatim>\<open>datetime\<close> object).
\<close>

theorem home_returns_greeting:
  assumes "path r = ''/''" and "valid_datetime (clock w)"
  shows "match_request r = Some Home \<and>
         status (fst (dispatch_request w r)) = 200 \<and>
         mimetype (fst (dispatch_request w r)) = ''application/json'' \<and>
         json_keys (fst (dispatch_request w r)) = [''message'', ''container'', ''timestamp''] \<and>
         json_field ''message'' (fst (dispatch_request w r)) = Some ''Hello from Dockerized Flask!'' \<and>
         json_field ''container'' (fst (dispatch_request w r)) = Some (hostname w) \<and>
         Option.bind (json_field ''timestamp'' (fst (dispatch_request w r))) parse_iso8601 =
           Some (fst (datetime_now w))"
proof -
  have "parse_iso8601 (isoformat ((clock w)\<lparr>tzinfo := None\<rparr>)) = Some ((clock w)\<lparr>tzinfo := None\<rparr>)"
    using assms(2) by (intro parse_isoformat_naive valid_naive) simp_all
  then show ?thesis
    using assms(1)
    by (simp add: dispatch_root json_field_home datetime_now_def match_request_def url_map_def)
      (simp add: home_eq jsonify_def json_keys_def)
qed

theorem home_returns_greeting_witness:
  "path (get ''/'') = ''/'' \<and> valid_datetime (clock host0) \<and>
   fst (dispatch_request host0 (get ''/'')) =
     \<lparr>status = 200, mimetype = ''application/json'',
      body = Json (JObject [(''message'', JString ''Hello from Dockerized Flask!''),
                            (''container'', JString ''3f2a9c41d7b0''),
                            (''timestamp'', JString ''2024-11-03T01:59:59.500000'')])\<rparr> \<and>
   parse_iso8601 ''2024-11-03T01:59:59.500000'' = Some (clock_before\<lparr>tzinfo := None\<rparr>)"
proof -
  have p: "path (get ''/'') = ''/''" by (simp add: get_def)
  have v: "valid_datetime (clock host0)" by (simp add: host0_def valid_examples)
  from home_returns_greeting [OF p v] p v show ?thesis
    by (simp add: dispatch_root home_eq jsonify_def json_field_def host0_def datetime_now_def
        isoformat_examples)
qed

text \<open>
  C2. A request to \<^verbatim>\<open>/health\<close> is routed to \<open>health\<close>, which answers with status 200 and
  the JSON object with the single key \<^verbatim>\<open>status\<close> and the value \<^verbatim>\<open>healthy\<close>.
\<close>

theorem health_returns_healthy:
  assumes "path r = ''/health''"
  shows "match_request r = Some Health \<and>
         fst (dispatch_request w r) =
           \<lparr>status = 200, mimetype = ''application/json'',
            body = Json (JObject [(''status'', JString ''healthy'')])\<rparr>"
  using assms by (simp add: dispatch_health health_def jsonify_def match_request_def url_map_def)

theorem health_returns_healthy_witness:
  "path (get_with_content ''/health'') = ''/health'' \<and>
   status (fst (dispatch_request unnamed_host (get_with_content ''/health''))) = 200 \<and>
   json_keys (fst (dispatch_request unnamed_host (get_with_content ''/health''))) = [''status''] \<and>
   json_field ''status'' (fst (dispatch_request unnamed_host (get_with_content ''/health'')))
     = Some ''healthy''"
proof -
  have p: "path (get_with_content ''/health'') = ''/health''" by (simp add: get_with_content_def)
  from health_returns_healthy [OF p, of unnamed_host] p show ?thesis
    by (simp add: json_keys_def json_field_def)
qed

text \<open>
  C3. The timestamps of successive requests to \<^verbatim>\<open>/\<close> are not always non-decreasing:
  the timestamp renders the local wall clock of the host, and when the host sets that
  clock back (here at the end of daylight saving time, three quarters of a second of
  real time after the first request) the later timestamp is the smaller one.
\<close>

theorem timestamp_nondecreasing_counterexample:
  "field_values ''timestamp''
     (fst (serve host0 [Incoming (get ''/''), ClockChange clock_after, Incoming (get ''/'')])) =
     [''2024-11-03T01:59:59.500000'', ''2024-11-03T01:00:00.250000''] \<and>
   \<not> ''2024-11-03T01:59:59.500000'' \<le> ''2024-11-03T01:00:00.250000''"
proof -
  have p: "path (get ''/'') = ''/''" by (simp add: get_def)
  show ?thesis
    by (simp add: serve_Incoming field_values_dispatch field_values_Nil p host0_def
        isoformat_examples del: serve.simps(2))
qed

text \<open>
  C3, amended. In a life of the process in which the local clock of the host never
  steps back, the timestamps of the responses, in the order of the requests, are
  non-decreasing as strings; the order of the strings is the order of the readings.
\<close>

theorem timestamp_nondecreasing_steady_clock:
  assumes "valid_datetime (clock w)" and "clock_steady w es"
  shows "sorted (field_values ''timestamp'' (fst (serve w es)))"
  using assms by (rule serve_timestamps_sorted)

theorem timestamp_nondecreasing_steady_clock_witness:
  "valid_datetime (clock host0) \<and>
   clock_steady host0 [Incoming (get ''/''), ClockChange clock_next_day, Incoming (get ''/'')] \<and>
   field_values ''timestamp''
     (fst (serve host0 [Incoming (get ''/''), ClockChange clock_next_day, Incoming (get ''/'')])) =
     [''2024-11-03T01:59:59.500000'', ''2024-11-04T00:00:00''] \<and>
   sorted [''2024-11-03T01:59:59.500000'', ''2024-11-04T00:00:00'']"
proof -
  let ?es = "[Incoming (get ''/''), ClockChange clock_next_day, Incoming (get ''/'')]"
  have p: "path (get ''/'') = ''/''" by (simp add: get_def)
  have v: "valid_datetime (clock host0)" by (simp add: host0_def valid_examples)
  have "dt_key clock_before \<le> dt_key clock_next_day"
    by (simp add: dt_key_def clock_before_def clock_next_day_def)
  then have s: "clock_steady host0 ?es"
    by (simp add: host0_def valid_examples)
  have f: "field_values ''timestamp'' (fst (serve host0 ?es)) =
           [''2024-11-03T01:59:59.500000'', ''2024-11-04T00:00:00'']"
    by (simp add: serve_Incoming field_values_dispatch field_values_Nil p host0_def
        isoformat_examples del: serve.simps(2))
  from timestamp_nondecreasing_steady_clock [OF v s] v s f show ?thesis by simp
qed




text \<open>
  C5. Two responses to \<^verbatim>\<open>/\<close> within one life of the process do not always carry the
  same \<^verbatim>\<open>container\<close>: each request reads the host name afresh, nothing is kept from
  start-up, and when the host is renamed between two requests the second response
  carries the new name.
\<close>

theorem container_stable_counterexample:
  "field_values ''container''
     (fst (serve host0 [Incoming (get ''/''), HostnameChange ''other'', Incoming (get ''/'')])) =
     [''3f2a9c41d7b0'', ''other''] \<and>
   ''3f2a9c41d7b0'' \<noteq> ''other''"
proof -
  have p: "path (get ''/'') = ''/''" by (simp add: get_def)
  show ?thesis
    by (simp add: serve_Incoming field_values_dispatch field_values_Nil p host0_def
        del: serve.simps(2))
qed

text \<open>
  C5, amended. In a life of the process during which the host keeps its name, any two
  responses to \<^verbatim>\<open>/\<close> carry the same \<^verbatim>\<open>container\<close>, the name of the host, although each
  request reads it afresh.
\<close>

theorem container_stable:
  assumes "hostname_stable es"
    and "c1 \<in> set (field_values ''container'' (fst (serve w es)))"
    and "c2 \<in> set (field_values ''container'' (fst (serve w es)))"
  shows "c1 = c2 \<and> c1 = hostname w"
  using serve_containers [OF assms(1,2)] serve_containers [OF assms(1,3)] by simp

theorem container_stable_witness:
  "hostname_stable [Incoming (get ''/''), ClockChange clock_after, Incoming (get_with_content ''/'')] \<and>
   field_values ''container''
     (fst (serve host0 [Incoming (get ''/''), ClockChange clock_after,
                        Incoming (get_with_content ''/'')])) =
     [''3f2a9c41d7b0'', ''3f2a9c41d7b0''] \<and>
   ''3f2a9c41d7b0'' = hostname host0"
proof -
  let ?es = "[Incoming (get ''/''), ClockChange clock_after, Incoming (get_with_content ''/'')]"
  have p: "path (get ''/'') = ''/''" "path (get_with_content ''/'') = ''/''"
    by (simp_all add: get_def get_with_content_def)
  have s: "hostname_stable ?es" by simp
  have f: "field_values ''container'' (fst (serve host0 ?es)) = [''3f2a9c41d7b0'', ''3f2a9c41d7b0'']"
    by (simp add: serve_Incoming field_values_dispatch field_values_Nil p host0_def
        del: serve.simps(2))
  have m: "''3f2a9c41d7b0'' \<in> set (field_values ''container'' (fst (serve host0 ?es)))"
    unfolding f by simp
  from container_stable [OF s m m] s f show ?thesis by simp
qed

text \<open>
  C6. Handling a request leaves the host as it was: the view functions and the router
  return the state they were given, whatever the request; handling the same request
  again gives the same response and state; and at the end of a life of the process the
  host is in the state its own changes of clock and name brought it to, as if no
  request had been served.
\<close>

theorem handling_leaves_state_unchanged:
  "snd (home w) = w \<and> snd (health w) = w \<and>
   snd (dispatch_request w r) = w \<and>
   dispatch_request (snd (dispatch_request w r)) r = dispatch_request w r \<and>
   snd (serve w es) = snd (serve w (filter (\<lambda>e. \<not> is_incoming e) es))"
  by (simp add: home_eq health_def dispatch_frame serve_frame)

theorem handling_leaves_state_unchanged_witness:
  "snd (dispatch_request host0 (get ''/'')) = host0 \<and>
   snd (dispatch_request host0 (get_with_content ''/health'')) = host0 \<and>
   snd (serve host0 [Incoming (get ''/''), Incoming (get ''/health''), Incoming (get ''/'')]) = host0"
  using handling_leaves_state_unchanged [of host0 "get ''/''"
      "[Incoming (get ''/''), Incoming (get ''/health''), Incoming (get ''/'')]"]
    handling_leaves_state_unchanged [of host0 "get_with_content ''/health''" "[]"]
  by simp

text \<open>
  C7. The router matches the path of a request against the two registered rules
  exactly. A request whose path is neither \<^verbatim>\<open>/\<close> nor \<^verbatim>\<open>/health\<close> matches no rule, no view
  function runs, and the response is the framework's 404 page.
\<close>

theorem unknown_path_not_found:
  assumes "path r \<noteq> ''/''" and "path r \<noteq> ''/health''"
  shows "match_request r = None \<and>
         dispatch_request w r = (not_found, w) \<and>
         status (fst (dispatch_request w r)) = 404 \<and>
         (match_request r' = Some Home \<longleftrightarrow> path r' = ''/'') \<and>
         (match_request r' = Some Health \<longleftrightarrow> path r' = ''/health'')"
  using assms
  by (simp add: dispatch_other not_found_def) (simp add: match_request_def url_map_def)

theorem unknown_path_not_found_witness:
  "path (get ''/nonexistent'') \<noteq> ''/'' \<and> path (get ''/nonexistent'') \<noteq> ''/health'' \<and>
   match_request (get ''/nonexistent'') = None \<and>
   status (fst (dispatch_request host0 (get ''/nonexistent''))) = 404"
proof -
  have p: "path (get ''/nonexistent'') \<noteq> ''/''" "path (get ''/nonexistent'') \<noteq> ''/health''"
    by (simp_all add: get_def)
  from unknown_path_not_found [OF p, of host0 "get ''/''"] p show ?thesis
    by (simp add: not_found_def)
qed





text \<open>
  C10. The response depends on the path of the request, the host name and the clock
  only: two requests with the same path, handled on hosts with the same name and the
  same clock, get the same response, whatever their query strings, headers and bodies.
\<close>

theorem response_ignores_request_content:
  assumes "path r1 = path r2" and "hostname w1 = hostname w2" and "clock w1 = clock w2"
  shows "fst (dispatch_request w1 r1) = fst (dispatch_request w2 r2)"
proof -
  from assms(2,3) have "w1 = w2" by simp
  with assms(1) show ?thesis by (simp add: dispatch_request_def match_request_def)
qed

theorem response_ignores_request_content_witness:
  "path (get ''/'') = path (get_with_content ''/'') \<and>
   get ''/'' \<noteq> get_with_content ''/'' \<and>
   fst (dispatch_request host0 (get ''/'')) = fst (dispatch_request host0 (get_with_content ''/''))"
proof -
  have p: "path (get ''/'') = path (get_with_content ''/'')"
    by (simp add: get_def get_with_content_def)
  have d: "get ''/'' \<noteq> get_with_content ''/''"
    by (simp add: get_def get_with_content_def)
  from response_ignores_request_content [OF p refl refl, of host0] p d show ?thesis by simp
qed

end
